theory Spec2Isabelle
  imports Complex_Main "HOL-Library.Sublist" "HOL-Library.Log_Nat" "HOL-Library.AList"
begin

section \<open>Python built-ins used by benchapps.py\<close>

text \<open>
  Strings are Python 2 byte strings, modelled as \<open>string\<close>. \<open>str.find\<close> gives the lowest
  index of a substring, or \<open>-1\<close>.
\<close>

fun find_idx :: "string \<Rightarrow> string \<Rightarrow> nat option" where
  "find_idx [] sub = (if sub = [] then Some 0 else None)"
| "find_idx (c # cs) sub =
     (if prefix sub (c # cs) then Some 0 else map_option Suc (find_idx cs sub))"

definition pyfind :: "string \<Rightarrow> string \<Rightarrow> int" where
  "pyfind s sub = (case find_idx s sub of None \<Rightarrow> - 1 | Some i \<Rightarrow> int i)"

text \<open>\<open>p.rfind('/') + 1\<close>: the index just after the last slash, 0 when there is none.\<close>

definition rfind_slash1 :: "string \<Rightarrow> nat" where
  "rfind_slash1 p = length p - length (takeWhile (\<lambda>c. c \<noteq> CHR ''/'') (rev p))"

definition rstrip_slash :: "string \<Rightarrow> string" where
  "rstrip_slash s = rev (dropWhile (\<lambda>c. c = CHR ''/'') (rev s))"

text \<open>
  \<open>os.path.split\<close> of posixpath: head and tail around the last slash; trailing slashes are
  stripped from the head unless it consists of slashes only.
\<close>

definition os_path_split :: "string \<Rightarrow> string \<times> string" where
  "os_path_split p =
     (let i = rfind_slash1 p; head = take i p; tail = drop i p
      in (if head \<noteq> [] \<and> head \<noteq> replicate (length head) CHR ''/''
          then rstrip_slash head else head, tail))"

section \<open>PyBin: the interpreters found at import time\<close>

text \<open>
  \<open>subprocess.call\<close> returns the exit code of the probe or raises \<open>OSError\<close> when the
  program cannot be started. The class body probes pypy3, pypy and python3 in this order
  inside one \<open>try\<close>: the first \<open>OSError\<close> leaves the remaining attributes \<open>None\<close>.
\<close>

datatype call_result = Exit int | CallOSError

record PyBin =
  PyBin_pypy3 :: "string option"
  PyBin_pypy :: "string option"
  PyBin_python3 :: "string option"

definition PyBin_init :: "(string list \<Rightarrow> call_result) \<Rightarrow> PyBin" where
  "PyBin_init call =
     (let c0 = \<lparr>PyBin_pypy3 = None, PyBin_pypy = None, PyBin_python3 = None\<rparr> in
      case call [''pypy3'', ''-h''] of
        CallOSError \<Rightarrow> c0
      | Exit r1 \<Rightarrow>
          (let c1 = (if r1 = 0 then c0\<lparr>PyBin_pypy3 := Some ''pypy3''\<rparr> else c0) in
           case call [''pypy'', ''-h''] of
             CallOSError \<Rightarrow> c1
           | Exit r2 \<Rightarrow>
               (let c2 = (if r2 = 0 then c1\<lparr>PyBin_pypy := Some ''pypy''\<rparr> else c1) in
                case call [''python3'', ''-h''] of
                  CallOSError \<Rightarrow> c2
                | Exit r3 \<Rightarrow> (if r3 = 0 then c2\<lparr>PyBin_python3 := Some ''python3''\<rparr> else c2))))"

text \<open>Truth value of an attribute that is \<open>None\<close> or a string.\<close>

definition truthy :: "string option \<Rightarrow> bool" where
  "truthy v = (case v of None \<Rightarrow> False | Some s \<Rightarrow> s \<noteq> [])"

text \<open>
  \<open>PyBin.bestof(pypy, v3)\<close>; \<open>PYEXEC\<close> is \<open>sys.executable\<close>, the path of the running
  interpreter.
\<close>

definition bestof :: "PyBin \<Rightarrow> string \<Rightarrow> bool \<Rightarrow> bool \<Rightarrow> string" where
  "bestof cls PYEXEC pypy v3 =
     (let pybin = PYEXEC; pyname = snd (os_path_split pybin) in
      if pypy \<and> v3 \<and> truthy (PyBin_pypy3 cls) then
        (if pyfind pyname ''pypy3'' = - 1 then the (PyBin_pypy3 cls) else pybin)
      else if pypy \<and> truthy (PyBin_pypy cls) then
        (if pyfind pyname ''pypy'' \<in> {- 1, pyfind pyname ''pypy3''} then the (PyBin_pypy cls)
         else pybin)
      else if v3 \<and> truthy (PyBin_python3 cls) then
        (if pyfind pyname ''python3'' = - 1 then the (PyBin_python3 cls) else pybin)
      else if pyfind pyname ''python'' \<in> {- 1, pyfind pyname ''python3''} then ''python''
      else pybin)"

section \<open>Floats\<close>

text \<open>
  A Python float is an IEEE 754 binary64. A finite float is modelled by the rational number
  it denotes; every arithmetic operation rounds the exact result with \<open>fl\<close> to the nearest
  float, ties to the even significand (53 bits, subnormals below \<open>2^-1022\<close>). Infinities,
  NaN and the sign of zero are not modelled: no operation here is taken beyond the largest
  float.
\<close>

definition pow2 :: "int \<Rightarrow> rat" where
  "pow2 e = (if 0 \<le> e then 2 ^ nat e else 1 / 2 ^ nat (- e))"

definition round_half_even :: "rat \<Rightarrow> int" where
  "round_half_even q =
     (let f = \<lfloor>q\<rfloor>; d = q - of_int f
      in if d < 1 / 2 then f else if 1 / 2 < d then f + 1 else if even f then f else f + 1)"

text \<open>The binary exponent \<open>e\<close> of a positive rational: \<open>2^e \<le> a < 2^(e+1)\<close>.\<close>

definition ilog2 :: "rat \<Rightarrow> int" where
  "ilog2 a =
     (let e0 = bitlen (fst (quotient_of a)) - bitlen (snd (quotient_of a))
      in if pow2 e0 \<le> a then e0 else e0 - 1)"

definition fl :: "rat \<Rightarrow> rat" where
  "fl x =
     (if x = 0 then 0
      else (let a = \<bar>x\<bar>; e = max (ilog2 a) (- 1022); u = pow2 (e - 52)
            in sgn x * of_int (round_half_even (a / u)) * u))"

definition fadd :: "rat \<Rightarrow> rat \<Rightarrow> rat" where
  "fadd a b = fl (a + b)"

definition fsub :: "rat \<Rightarrow> rat \<Rightarrow> rat" where
  "fsub a b = fl (a - b)"

definition fdiv :: "rat \<Rightarrow> rat \<Rightarrow> rat" where
  "fdiv a b = fl (a / b)"

subsection \<open>Formatting with a fixed number of decimals\<close>

text \<open>Digits are computed on integers; \<open>n\<close> is not negative.\<close>

definition digit_char :: "int \<Rightarrow> char" where
  "digit_char n = ''0123456789'' ! nat (n mod 10)"

text \<open>The last \<open>k\<close> decimal digits of \<open>n\<close>, zero padded.\<close>

fun digits_fixed :: "nat \<Rightarrow> int \<Rightarrow> string" where
  "digits_fixed 0 n = []"
| "digits_fixed (Suc k) n = digits_fixed k (n div 10) @ [digit_char n]"

text \<open>The decimal numeral of \<open>n\<close>.\<close>

function str_int :: "int \<Rightarrow> string" where
  "str_int n = (if n < 10 then [digit_char n] else str_int (n div 10) @ [digit_char n])"
  by pat_completeness auto
termination
  by (relation "measure nat") auto

declare str_int.simps [simp del]

text \<open>
  \<open>'{:.df}'.format(x)\<close>: the exact value of the float rounded to \<open>d\<close> decimals, ties to
  even; a negative value keeps its sign also when it rounds to zero.
\<close>

definition format_f :: "nat \<Rightarrow> rat \<Rightarrow> string" where
  "format_f d x =
     (let n = round_half_even (\<bar>x\<bar> * 10 ^ d)
      in (if x < 0 then ''-'' else []) @ str_int (n div 10 ^ d)
         @ (if d = 0 then [] else ''.'' @ digits_fixed d (n mod 10 ^ d)))"

text \<open>
  \<open>float(s)\<close> for a plain decimal numeral \<open>digits[.digits]\<close> with an optional sign, correctly
  rounded; \<open>None\<close> stands for \<open>ValueError\<close>. Exponents, \<open>inf\<close>, \<open>nan\<close> and surrounding blanks,
  which \<open>float\<close> also accepts, are outside this parser: it is the parser of the examples,
  and the functions below take the parser as a parameter.
\<close>

definition is_digit :: "char \<Rightarrow> bool" where
  "is_digit c = (c \<in> set ''0123456789'')"

definition digit_val :: "char \<Rightarrow> int" where
  "digit_val c = of_char c - 48"

definition int_of_digits :: "string \<Rightarrow> int" where
  "int_of_digits ds = foldl (\<lambda>n c. 10 * n + digit_val c) 0 ds"

definition dec_float :: "string \<Rightarrow> rat option" where
  "dec_float s =
     (let neg = (s \<noteq> [] \<and> hd s = CHR ''-'');
          t = (if s \<noteq> [] \<and> hd s \<in> {CHR ''-'', CHR ''+''} then tl s else s);
          ip = takeWhile is_digit t;
          r = dropWhile is_digit t;
          fp = (if r \<noteq> [] \<and> hd r = CHR ''.'' then tl r else [])
      in if (r = [] \<or> hd r = CHR ''.'') \<and> (\<forall>c \<in> set fp. is_digit c) \<and> ip @ fp \<noteq> []
         then Some (fl ((if neg then - 1 else 1)
                * (of_int (int_of_digits (ip @ fp)) / 10 ^ length fp)))
         else None)"

section \<open>Strings: whitespace, split, lines\<close>

text \<open>The whitespace of Python 2 byte strings: blank, tab, line feed, VT, FF, carriage return.\<close>

definition isspace :: "char \<Rightarrow> bool" where
  "isspace c = (c \<in> {CHR '' '', CHR 0x09, CHR 0x0A, CHR 0x0B, CHR 0x0C, CHR 0x0D})"

definition lstrip :: "string \<Rightarrow> string" where
  "lstrip s = dropWhile isspace s"

definition rstrip :: "string \<Rightarrow> string" where
  "rstrip s = rev (dropWhile isspace (rev s))"

text \<open>
  \<open>s.split(None, maxsplit)\<close>: words separated by runs of whitespace; after \<open>maxsplit\<close>
  words the rest of the string, without its leading whitespace, is the last field.
\<close>

fun split_ws :: "nat \<Rightarrow> string \<Rightarrow> string list" where
  "split_ws 0 s = (let t = dropWhile isspace s in if t = [] then [] else [t])"
| "split_ws (Suc m) s =
     (let t = dropWhile isspace s
      in if t = [] then []
         else takeWhile (\<lambda>c. \<not> isspace c) t # split_ws m (dropWhile (\<lambda>c. \<not> isspace c) t))"

text \<open>\<open>s.split()\<close> without a bound: a string has at most \<open>length s\<close> words.\<close>

definition split_all :: "string \<Rightarrow> string list" where
  "split_all s = split_ws (length s) s"

text \<open>Iterating over a text file: the lines, each with its terminating line feed.\<close>

fun pylines_acc :: "string \<Rightarrow> string \<Rightarrow> string list" where
  "pylines_acc cur [] = (if cur = [] then [] else [cur])"
| "pylines_acc cur (c # cs) =
     (if c = CHR 0x0A then (cur @ [c]) # pylines_acc [] cs else pylines_acc (cur @ [c]) cs)"

definition pylines :: "string \<Rightarrow> string list" where
  "pylines s = pylines_acc [] s"

section \<open>Exceptions\<close>

text \<open>
  The exceptions that leave a function of benchapps.py; an \<open>AssertionError\<close> carries the
  head of the message of the failed \<open>assert\<close>.
\<close>

datatype pyerror =
  AssertionError string | IOError | OSError | ValueError | IndexError | ZeroDivisionError

abbreviation TAB :: string where
  "TAB \<equiv> [CHR 0x09]"

abbreviation NL :: string where
  "NL \<equiv> [CHR 0x0A]"

definition quoted :: "string \<Rightarrow> string" where
  "quoted s = [CHR 0x22] @ s @ [CHR 0x22]"

section \<open>Names imported from benchutils and benchevals\<close>

text \<open>
  benchapps.py imports constants from benchevals and helpers from benchutils; neither module
  is among the sources at hand. The constants and \<open>delPathSuffix\<close> are parameters, collected
  in one record, and so is the parser behind \<open>float(s)\<close> (\<open>None\<close> stands for
  \<open>ValueError\<close>).
\<close>

record benchenv =
  RESDIR :: string
  EXTEXECTIME :: string
  EXTAGGRES :: string
  EXTAGGRESEXT :: string
  delPathSuffix :: "string \<Rightarrow> bool \<Rightarrow> string"
  pyfloat :: "string \<Rightarrow> rat option"

text \<open>
  Modelled from the spec: \<open>ItemsStatistic\<close> of benchutils (the spec's StatAccumulator), which
  is not among the sources. It holds count, sum, min and max of a series, the flag \<open>fixed\<close>
  and the average, which exists only after \<open>fix()\<close>. \<open>add\<close> updates count, running sum,
  running min and running max; \<open>fix\<close> computes avg = sum / count and fails when the count is
  zero. The constructor is called as \<open>ItemsStatistic(name, val, val)\<close>: a name and the initial
  min and max.
\<close>

record ItemsStatistic =
  stat_name :: string
  stat_min :: rat
  stat_max :: rat
  stat_sum :: rat
  stat_count :: nat
  stat_fixed :: bool
  stat_avg :: "rat option"

definition ItemsStatistic_init :: "string \<Rightarrow> rat \<Rightarrow> rat \<Rightarrow> ItemsStatistic" where
  "ItemsStatistic_init nm min0 max0 =
     \<lparr>stat_name = nm, stat_min = min0, stat_max = max0, stat_sum = 0, stat_count = 0,
      stat_fixed = False, stat_avg = None\<rparr>"

definition stat_add :: "ItemsStatistic \<Rightarrow> rat \<Rightarrow> ItemsStatistic" where
  "stat_add st val =
     st\<lparr>stat_sum := fadd (stat_sum st) val, stat_count := stat_count st + 1,
        stat_min := min (stat_min st) val, stat_max := max (stat_max st) val\<rparr>"

definition stat_fix :: "ItemsStatistic \<Rightarrow> pyerror + ItemsStatistic" where
  "stat_fix st =
     (if stat_count st = 0 then Inl ZeroDivisionError
      else Inr (st\<lparr>stat_fixed := True,
                   stat_avg := Some (fdiv (stat_sum st) (of_nat (stat_count st)))\<rparr>))"

section \<open>aggexec: reading the resource logs\<close>

text \<open>
  A measure table is a dict from network name to the list of accumulators; it is an
  association list in insertion order (\<open>setdefault\<close> appends a new key). The order in which
  Python 2 iterates over a dict is not modelled; nothing below depends on the order of rows.
\<close>

type_synonym netdict = "(string \<times> ItemsStatistic list) list"

text \<open>\<open>netstats[-1].add(val)\<close> on a non-empty list.\<close>

definition add_last :: "ItemsStatistic list \<Rightarrow> rat \<Rightarrow> ItemsStatistic list" where
  "add_last netstats val = butlast netstats @ [stat_add (last netstats) val]"

text \<open>The body of the loop over the three measures, for one measure table.\<close>

definition agg_add :: "string \<Rightarrow> nat \<Rightarrow> string \<Rightarrow> rat \<Rightarrow> netdict \<Rightarrow> pyerror + netdict" where
  "agg_add alg ialg net val d =
     (let netstats = (case map_of d net of None \<Rightarrow> [] | Some ns \<Rightarrow> ns) in
      if length netstats \<le> ialg then
        (if length netstats = ialg
         then Inr (AList.update net
                (add_last (netstats @ [ItemsStatistic_init (alg @ ''_'' @ net) val val]) val) d)
         else Inl (AssertionError ''Network statistics are not synced with algorithms''))
      else Inr (AList.update net (add_last netstats val) d))"

fun agg_vals :: "string \<Rightarrow> nat \<Rightarrow> string \<Rightarrow> rat list \<Rightarrow> netdict list \<Rightarrow> pyerror + netdict list" where
  "agg_vals alg ialg net [] msrs = Inr msrs"
| "agg_vals alg ialg net (val # vals) [] = Inl IndexError"
| "agg_vals alg ialg net (val # vals) (d # ds) =
     (case agg_add alg ialg net val d of
        Inl e \<Rightarrow> Inl e
      | Inr d' \<Rightarrow>
          (case agg_vals alg ialg net vals ds of
             Inl e \<Rightarrow> Inl e
           | Inr ds' \<Rightarrow> Inr (d' # ds')))"

text \<open>The body of the loop over the lines of one log.\<close>

definition agg_line :: "benchenv \<Rightarrow> string \<Rightarrow> nat \<Rightarrow> netdict list \<Rightarrow> string \<Rightarrow> pyerror + netdict list" where
  "agg_line env alg ialg msrs line0 =
     (let line = lstrip line0 in
      if line = [] \<or> hd line = CHR ''#'' then Inr msrs
      else
        (let fields = split_ws 5 line in
         if length fields \<noteq> 6
         then Inl (AssertionError ''Invalid format of the resource consumption file'')
         else
           (let net = delPathSuffix env (rstrip (fields ! 5)) True in
            if net = [] then Inl (AssertionError ''Network name must exist'')
            else
              (case pyfloat env (fields ! 0) of
                 None \<Rightarrow> Inl ValueError
               | Some etime \<Rightarrow>
                   (case pyfloat env (fields ! 1) of
                      None \<Rightarrow> Inl ValueError
                    | Some ctime \<Rightarrow>
                        (case pyfloat env (fields ! 4) of
                           None \<Rightarrow> Inl ValueError
                         | Some rmem \<Rightarrow>
                             agg_vals alg ialg net [etime, ctime, rmem] msrs))))))"

fun agg_lines :: "benchenv \<Rightarrow> string \<Rightarrow> nat \<Rightarrow> netdict list \<Rightarrow> string list \<Rightarrow> pyerror + netdict list" where
  "agg_lines env alg ialg msrs [] = Inr msrs"
| "agg_lines env alg ialg msrs (line # lns) =
     (case agg_line env alg ialg msrs line of
        Inl e \<Rightarrow> Inl e
      | Inr msrs' \<Rightarrow> agg_lines env alg ialg msrs' lns)"

record aggstate =
  agg_measures :: "netdict list"
  agg_malgs :: "string list"
  agg_ialg :: nat

definition algesfile :: "benchenv \<Rightarrow> string \<Rightarrow> string" where
  "algesfile env alg = RESDIR env @ alg @ ''/'' @ alg @ EXTEXECTIME env"

definition warn_missing :: "string \<Rightarrow> string" where
  "warn_missing alg = ''WARNING, execution results for '' @ quoted alg @ '' do not exist, skipped.''"

text \<open>
  The loop over the algorithms. The file store maps a path to the content of a regular
  file; \<open>open(path, 'r')\<close> raises \<open>IOError\<close> exactly when the store has no file at the path.
  The result is the exception that ended the loop, if any, the state and what was printed
  to stderr.
\<close>

fun agg_algs :: "benchenv \<Rightarrow> (string \<rightharpoonup> string) \<Rightarrow> string list \<Rightarrow> aggstate \<Rightarrow> string list
    \<Rightarrow> pyerror option \<times> aggstate \<times> string list" where
  "agg_algs env fs [] st err = (None, st, err)"
| "agg_algs env fs (alg # algs) st err =
     (case fs (algesfile env alg) of
        None \<Rightarrow> agg_algs env fs algs st (err @ [warn_missing alg])
      | Some content \<Rightarrow>
          (case agg_lines env alg (agg_ialg st) (agg_measures st) (pylines content) of
             Inl e \<Rightarrow> (Some e, st\<lparr>agg_malgs := agg_malgs st @ [alg]\<rparr>, err)
           | Inr ms \<Rightarrow>
               agg_algs env fs algs
                 \<lparr>agg_measures = ms, agg_malgs = agg_malgs st @ [alg], agg_ialg = agg_ialg st + 1\<rparr> err))"

section \<open>aggexec: writing the reports\<close>

text \<open>
  The part of the operating system that aggexec touches: the regular files by path, the
  paths at which \<open>open(path, 'a')\<close> raises \<open>IOError\<close>, what was printed to stderr, and the
  text of \<open>datetime.utcnow()\<close> at the call. Opening a file for appending creates it when it
  does not exist. Writes are buffered and reach the file when the \<open>with\<close> block is left,
  also when it is left by an exception.
\<close>

record osstate =
  files :: "string \<rightharpoonup> string"
  append_denied :: "string \<Rightarrow> bool"
  stderr :: "string list"
  utcnow :: string

text \<open>The content of the file at a path, empty when there is no file.\<close>

definition fcontent :: "osstate \<Rightarrow> string \<Rightarrow> string" where
  "fcontent w path = (case files w path of None \<Rightarrow> [] | Some c \<Rightarrow> c)"

definition fappend :: "string \<Rightarrow> string \<Rightarrow> osstate \<Rightarrow> osstate" where
  "fappend path txt w = w\<lparr>files := (files w)(path \<mapsto> fcontent w path @ txt)\<rparr>"

definition eprint :: "string \<Rightarrow> osstate \<Rightarrow> osstate" where
  "eprint msg w = w\<lparr>stderr := stderr w @ [msg]\<rparr>"

text \<open>
  The loop over the accumulators of one network: \<open>outs\<close> are the texts written so far to
  \<open>outres\<close> and \<open>outresx\<close>; \<open>timemsr\<close> is the test \<open>imsr < len(mnames) - 1\<close>. Formatting
  \<open>None\<close> as a float raises \<open>ValueError\<close>.
\<close>

fun write_stats :: "string list \<Rightarrow> bool \<Rightarrow> nat \<Rightarrow> ItemsStatistic list \<Rightarrow> string \<times> string
    \<Rightarrow> pyerror option \<times> (string \<times> string)" where
  "write_stats algnames timemsr i [] outs = (None, outs)"
| "write_stats algnames timemsr i (stat # stats) (outres, outresx) =
     (case (if stat_fixed stat then Inr stat else stat_fix stat) of
        Inl e \<Rightarrow> (Some e, (outres, outresx))
      | Inr st \<Rightarrow>
          (case (if timemsr then Some (stat_sum st) else stat_avg st) of
             None \<Rightarrow> (Some ValueError, (outres, outresx))
           | Some val \<Rightarrow>
               (let outres1 = outres @ TAB @ format_f 3 val in
                if length algnames \<le> i then (Some IndexError, (outres1, outresx))
                else
                  (case stat_avg st of
                     None \<Rightarrow> (Some ValueError, (outres1, outresx))
                   | Some avg \<Rightarrow>
                       write_stats algnames timemsr (i + 1) stats
                         (outres1,
                          outresx @ NL @ TAB @ algnames ! i @ ''>'' @ TAB @ ''total: ''
                            @ format_f 3 val @ '', per_item: '' @ format_f 6 avg
                            @ '' ('' @ format_f 6 (stat_min st) @ '' .. ''
                            @ format_f 6 (stat_max st) @ '')'')))))"

text \<open>The loop over the networks of one measure table.\<close>

fun write_nets :: "string list \<Rightarrow> bool \<Rightarrow> netdict \<Rightarrow> string \<times> string
    \<Rightarrow> pyerror option \<times> (string \<times> string)" where
  "write_nets algnames timemsr [] outs = (None, outs)"
| "write_nets algnames timemsr ((netname, netstats) # items) (outres, outresx) =
     (case write_stats algnames timemsr 0 netstats (outres @ netname, outresx @ netname) of
        (Some e, outs') \<Rightarrow> (Some e, outs')
      | (None, (outres', outresx')) \<Rightarrow>
          write_nets algnames timemsr items (outres' @ NL, outresx' @ NL))"

definition resx_header :: string where
  "resx_header = ''# <network>'' @ NL @ ''#'' @ TAB @ ''<alg1_outp>'' @ NL @ ''#'' @ TAB
     @ ''<alg2_outp>'' @ NL @ ''#'' @ TAB @ ''...'' @ NL"

definition timestamp_line :: "string \<Rightarrow> string" where
  "timestamp_line ts = ''# --- '' @ ts @ '' ---'' @ NL"

text \<open>
  The message printed when a report cannot be opened; the text of the exception and the
  traceback that follow it in the source are left out.
\<close>

definition err_output :: "string \<Rightarrow> string" where
  "err_output msrname = ''ERROR, '' @ quoted msrname @ '' results output execution is failed''"

definition resfile :: "benchenv \<Rightarrow> string \<Rightarrow> string" where
  "resfile env msrname = RESDIR env @ msrname @ EXTAGGRES env"

definition resxfile :: "benchenv \<Rightarrow> string \<Rightarrow> string" where
  "resxfile env msrname = RESDIR env @ msrname @ EXTAGGRESEXT env"

text \<open>
  The body of the loop over the measures: both reports are opened for appending, the
  extended one second and closed first.
\<close>

definition write_measure :: "benchenv \<Rightarrow> string \<Rightarrow> string list \<Rightarrow> bool \<Rightarrow> string \<Rightarrow> netdict \<Rightarrow> osstate
    \<Rightarrow> pyerror option \<times> osstate" where
  "write_measure env ts algnames timemsr msrname d w =
     (if append_denied w (resfile env msrname) then (None, eprint (err_output msrname) w)
      else
        (let w1 = fappend (resfile env msrname) [] w in
         if append_denied w1 (resxfile env msrname) then (None, eprint (err_output msrname) w1)
         else
           (let w2 = fappend (resxfile env msrname) [] w1;
                getsize = length (fcontent w2 (resxfile env msrname));
                outresx0 = (if getsize = 0 then resx_header else []);
                outres1 = timestamp_line ts;
                outresx1 = outresx0 @ timestamp_line ts;
                outres2 = outres1 @ ''# <network>'' @ concat (map ((@) TAB) algnames) @ NL
            in case write_nets algnames timemsr d (outres2, outresx1) of
                 (exc, (outres, outresx)) \<Rightarrow>
                   (exc, fappend (resfile env msrname) outres
                           (fappend (resxfile env msrname) outresx w2)))))"

text \<open>The loop \<open>for imsr, measure in enumerate(mnames)\<close>; \<open>n\<close> is \<open>len(mnames)\<close>.\<close>

fun write_reports :: "benchenv \<Rightarrow> string \<Rightarrow> string list \<Rightarrow> netdict list \<Rightarrow> nat \<Rightarrow> (nat \<times> string) list
    \<Rightarrow> osstate \<Rightarrow> pyerror option \<times> osstate" where
  "write_reports env ts algnames msrs n [] w = (None, w)"
| "write_reports env ts algnames msrs n ((imsr, msrname) # rest) w =
     (if length msrs \<le> imsr then (Some IndexError, w)
      else
        (case write_measure env ts algnames (imsr < n - 1) msrname (msrs ! imsr) w of
           (Some e, w') \<Rightarrow> (Some e, w')
         | (None, w') \<Rightarrow> write_reports env ts algnames msrs n rest w'))"

definition mnames :: "string list" where
  "mnames = [''exectime'', ''cputime'', ''rssmem'']"

definition warn_none :: string where
  "warn_none = ''WARNING, there are no any algortihms execution results to be aggregated.''"

text \<open>
  \<open>aggexec(algs)\<close>: the exception that leaves the call, if any, and the state of the
  operating system after it.
\<close>

definition aggexec :: "benchenv \<Rightarrow> string list \<Rightarrow> osstate \<Rightarrow> pyerror option \<times> osstate" where
  "aggexec env algs w =
     (case agg_algs env (files w) algs
             \<lparr>agg_measures = [[], [], []], agg_malgs = [], agg_ialg = 0\<rparr> [] of
        (Some e, st, err) \<Rightarrow> (Some e, w\<lparr>stderr := stderr w @ err\<rparr>)
      | (None, st, err) \<Rightarrow>
          (let w1 = w\<lparr>stderr := stderr w @ err\<rparr> in
           if agg_malgs st = [] then (None, eprint warn_none w1)
           else write_reports env (utcnow w1) (agg_malgs st) (agg_measures st) (length mnames)
                  (enumerate 0 mnames) w1))"

section \<open>Log lines and example data\<close>

text \<open>A line that aggexec parses: not blank and not a comment after \<open>lstrip\<close>.\<close>

definition result_line :: "string \<Rightarrow> bool" where
  "result_line line = (lstrip line \<noteq> [] \<and> hd (lstrip line) \<noteq> CHR ''#'')"

text \<open>
  The parameters of the examples: a results directory and extensions, a \<open>delPathSuffix\<close>
  that finds no suffix to strip, and the parser of plain decimal numerals.
\<close>

definition example_env :: benchenv where
  "example_env =
     \<lparr>RESDIR = ''results/'', EXTEXECTIME = ''.rcp'', EXTAGGRES = ''.res'',
      EXTAGGRESEXT = ''.resx'', delPathSuffix = (\<lambda>path nameonly. path), pyfloat = dec_float\<rparr>"

definition example_os :: "(string \<times> string) list \<Rightarrow> osstate" where
  "example_os fs =
     \<lparr>files = map_of fs, append_denied = (\<lambda>path. False), stderr = [],
      utcnow = ''2015-07-01 10:00:00.000000''\<rparr>"

section \<open>The accumulator table and the algorithms\<close>

text \<open>
  An algorithm has results when its log can be opened and holds a line that aggexec parses;
  the producers of a list are its algorithms with results, in list order.
\<close>

definition has_results :: "benchenv \<Rightarrow> (string \<rightharpoonup> string) \<Rightarrow> string \<Rightarrow> bool" where
  "has_results env fs alg =
     (case fs (algesfile env alg) of None \<Rightarrow> False | Some c \<Rightarrow> list_ex result_line (pylines c))"


text \<open>
  The invariant of one measure table, for the list \<open>names\<close> of the algorithms whose log was
  opened so far and a property \<open>P\<close> of algorithms: no entry is empty or longer than the
  list, and the accumulator at position \<open>i\<close> is named after the \<open>i\<close>-th name and the
  network, has a sample, and its algorithm satisfies \<open>P\<close>.
\<close>

definition aligned :: "(string \<Rightarrow> bool) \<Rightarrow> string list \<Rightarrow> netdict \<Rightarrow> bool" where
  "aligned P names d =
     (\<forall>(net, ns) \<in> set d. ns \<noteq> [] \<and> length ns \<le> length names
        \<and> (\<forall>i < length ns. stat_name (ns ! i) = names ! i @ ''_'' @ net
              \<and> 0 < stat_count (ns ! i) \<and> P (names ! i)))"




section \<open>Report files and the end-to-end example\<close>

text \<open>The paths of the reports written for a list of enumerated measures.\<close>

definition report_paths :: "benchenv \<Rightarrow> (nat \<times> string) list \<Rightarrow> string list" where
  "report_paths env l = concat (map (\<lambda>(i, m). [resfile env m, resxfile env m]) l)"

text \<open>
  The resource log of one algorithm: two runs on graph1 (0.5 and 0.7 seconds) and one run
  on graph2; in the second state the extended report of the execution time already exists.
\<close>

definition algX_log :: string where
  "algX_log = ''# ExecTime(sec) CPU_time(sec) CPU_usr(sec) CPU_kern(sec) RSS_RAM_peak(Mb) TaskName\<newline>0.5 0.4 0.3 0.1 2.0 graph1\<newline>0.7 0.6 0.5 0.1 3.0 graph1\<newline>1.2 1.0 0.9 0.1 2.5 graph2\<newline>''"

definition algX_os :: osstate where
  "algX_os = example_os [(''results/algX/algX.rcp'', algX_log)]"

definition algX_os_again :: osstate where
  "algX_os_again =
     example_os [(''results/algX/algX.rcp'', algX_log), (''results/exectime.resx'', ''# old\<newline>'')]"

section \<open>Accumulated values\<close>

text \<open>
  The sum and the average of a series of samples in float arithmetic, in the order of the
  samples, and the accumulator that aggexec holds after these samples: it is created from
  the first sample as initial min and max, and every sample, the first included, is added.
\<close>

definition fsum :: "rat list \<Rightarrow> rat" where
  "fsum vs = foldl fadd 0 vs"

definition favg :: "rat list \<Rightarrow> rat" where
  "favg vs = fdiv (fsum vs) (of_nat (length vs))"

definition accumulated :: "string \<Rightarrow> rat list \<Rightarrow> ItemsStatistic" where
  "accumulated nm vs = foldl stat_add (ItemsStatistic_init nm (hd vs) (hd vs)) vs"

text \<open>
  The value of a report cell and the entry of the extended report for one algorithm, as
  functions of the samples: the sum for a time measure, the average otherwise; the total
  with three decimals, the average, the minimum and the maximum with six.
\<close>

definition cell_value :: "bool \<Rightarrow> rat list \<Rightarrow> rat" where
  "cell_value timemsr vs = (if timemsr then fsum vs else favg vs)"

definition ext_entry :: "bool \<Rightarrow> string \<times> rat list \<Rightarrow> string" where
  "ext_entry timemsr e =
     NL @ TAB @ fst e @ ''>'' @ TAB @ ''total: '' @ format_f 3 (cell_value timemsr (snd e))
       @ '', per_item: '' @ format_f 6 (favg (snd e))
       @ '' ('' @ format_f 6 (Min (set (snd e))) @ '' .. '' @ format_f 6 (Max (set (snd e))) @ '')''"


section \<open>Facts about the built-ins\<close>

lemma find_idx_None_iff: "find_idx s sub = None \<longleftrightarrow> \<not> sublist sub s"
proof (induction s)
  case Nil
  then show ?case by simp
next
  case (Cons c cs)
  then show ?case by (auto simp: sublist_Cons_right)
qed

lemma pyfind_absent: "pyfind s sub = - 1 \<longleftrightarrow> \<not> sublist sub s"
  using find_idx_None_iff [of s sub] by (auto simp: pyfind_def split: option.splits)

lemma PyBin_init_values:
  "PyBin_pypy3 (PyBin_init call) \<in> {None, Some ''pypy3''}"
  "PyBin_pypy (PyBin_init call) \<in> {None, Some ''pypy''}"
  "PyBin_python3 (PyBin_init call) \<in> {None, Some ''python3''}"
  by (auto simp: PyBin_init_def Let_def split: call_result.splits)

lemma truthy_init:
  "truthy (PyBin_pypy3 (PyBin_init call)) \<longleftrightarrow> PyBin_pypy3 (PyBin_init call) = Some ''pypy3''"
  "truthy (PyBin_pypy (PyBin_init call)) \<longleftrightarrow> PyBin_pypy (PyBin_init call) = Some ''pypy''"
  "truthy (PyBin_python3 (PyBin_init call)) \<longleftrightarrow> PyBin_python3 (PyBin_init call) = Some ''python3''"
  using PyBin_init_values [of call] by (auto simp: truthy_def)


section \<open>Interpreter selection\<close>

text \<open>
  C9. Given the interpreters detected by the one-time probe and the running interpreter,
  \<open>bestof\<close> follows the priority pypy3 (asked for with both \<open>pypy\<close> and \<open>v3\<close>), then pypy
  (asked for with \<open>pypy\<close>), then python3 (asked for with \<open>v3\<close>), then the default: in each
  case the answer is the detected runtime of that rank, or the running interpreter when its
  own file name already names that runtime; with no preferred runtime detected the answer is
  the running interpreter or the generic name python. The answer is a function of the
  detected set, the running interpreter and the two preferences only.
\<close>

theorem bestof_priority:
  "(pypy \<and> v3 \<and> PyBin_pypy3 (PyBin_init call) = Some ''pypy3'' \<longrightarrow>
      bestof (PyBin_init call) exe pypy v3 =
        (if sublist ''pypy3'' (snd (os_path_split exe)) then exe else ''pypy3''))
   \<and> (pypy \<and> \<not> (v3 \<and> PyBin_pypy3 (PyBin_init call) = Some ''pypy3'')
        \<and> PyBin_pypy (PyBin_init call) = Some ''pypy'' \<longrightarrow>
      bestof (PyBin_init call) exe pypy v3 = ''pypy''
      \<or> bestof (PyBin_init call) exe pypy v3 = exe \<and> sublist ''pypy'' (snd (os_path_split exe)))
   \<and> (v3 \<and> \<not> (pypy \<and> PyBin_pypy3 (PyBin_init call) = Some ''pypy3'')
        \<and> \<not> (pypy \<and> PyBin_pypy (PyBin_init call) = Some ''pypy'')
        \<and> PyBin_python3 (PyBin_init call) = Some ''python3'' \<longrightarrow>
      bestof (PyBin_init call) exe pypy v3 =
        (if sublist ''python3'' (snd (os_path_split exe)) then exe else ''python3''))
   \<and> (\<not> (pypy \<and> v3 \<and> PyBin_pypy3 (PyBin_init call) = Some ''pypy3'')
        \<and> \<not> (pypy \<and> PyBin_pypy (PyBin_init call) = Some ''pypy'')
        \<and> \<not> (v3 \<and> PyBin_python3 (PyBin_init call) = Some ''python3'') \<longrightarrow>
      bestof (PyBin_init call) exe pypy v3 = exe
      \<or> bestof (PyBin_init call) exe pypy v3 = ''python'')"
proof -
  let ?cls = "PyBin_init call"
  let ?n = "snd (os_path_split exe)"
  have absent: "\<And>sub. pyfind ?n sub \<noteq> - 1 \<Longrightarrow> sublist sub ?n"
    using pyfind_absent by blast
  show ?thesis
    unfolding bestof_def Let_def truthy_init
    using absent [of "''pypy''"]
    by (auto simp: pyfind_absent)
qed

theorem bestof_priority_witness:
  "bestof (PyBin_init (\<lambda>args. Exit 0)) ''/usr/bin/python2.7'' True True = ''pypy3''
   \<and> bestof (PyBin_init (\<lambda>args. Exit 0)) ''/opt/pypy3/bin/pypy3'' True True = ''/opt/pypy3/bin/pypy3''
   \<and> bestof (PyBin_init (\<lambda>args. Exit 0)) ''/usr/bin/python2.7'' True False = ''pypy''
   \<and> bestof (PyBin_init (\<lambda>args. if args = [''pypy3'', ''-h''] then Exit 1 else Exit 0))
        ''/usr/bin/python2.7'' True True = ''pypy''
   \<and> bestof (PyBin_init (\<lambda>args. Exit 0)) ''/usr/bin/python2.7'' False True = ''python3''
   \<and> bestof (PyBin_init (\<lambda>args. CallOSError)) ''/usr/bin/python2.7'' True True = ''/usr/bin/python2.7''
   \<and> bestof (PyBin_init (\<lambda>args. CallOSError)) ''/usr/bin/python3'' True True = ''python''"
  using bestof_priority [of True True "\<lambda>args. Exit 0" "''/usr/bin/python2.7''"]
    bestof_priority [of True True "\<lambda>args. Exit 0" "''/opt/pypy3/bin/pypy3''"]
    bestof_priority [of True False "\<lambda>args. Exit 0" "''/usr/bin/python2.7''"]
    bestof_priority [of True True "\<lambda>args. if args = [''pypy3'', ''-h''] then Exit 1 else Exit 0"
      "''/usr/bin/python2.7''"]
    bestof_priority [of False True "\<lambda>args. Exit 0" "''/usr/bin/python2.7''"]
    bestof_priority [of True True "\<lambda>args. CallOSError" "''/usr/bin/python2.7''"]
    bestof_priority [of True True "\<lambda>args. CallOSError" "''/usr/bin/python3''"]
  by (simp add: PyBin_init_def bestof_def truthy_def pyfind_def os_path_split_def
      rfind_slash1_def rstrip_slash_def Let_def)

section \<open>Splitting and parsing a line\<close>

lemma split_ws_strip: "split_ws n (dropWhile isspace s) = split_ws n s"
  by (cases n) simp_all

lemma length_dropWhile_less:
  "t \<noteq> [] \<Longrightarrow> \<not> P (hd t) \<Longrightarrow> length (dropWhile (\<lambda>c. \<not> P c) t) < length t"
  by (cases t) (auto simp: less_Suc_eq_le length_dropWhile_le)

lemma dropWhile_hd_not: "dropWhile P s \<noteq> [] \<Longrightarrow> \<not> P (hd (dropWhile P s))"
  by (simp add: hd_dropWhile)

lemma split_ws_enough:
  "length s \<le> m \<Longrightarrow> length s \<le> n \<Longrightarrow> split_ws m s = split_ws n s"
proof (induction m arbitrary: n s)
  case 0
  then show ?case by (cases n) simp_all
next
  case (Suc m)
  show ?case
  proof (cases n)
    case 0
    with Suc.prems show ?thesis by simp
  next
    case (Suc n')
    let ?t = "dropWhile isspace s"
    let ?r = "dropWhile (\<lambda>c. \<not> isspace c) ?t"
    show ?thesis
    proof (cases "?t = []")
      case True
      then show ?thesis using Suc by simp
    next
      case False
      have "length ?r < length ?t"
        using False length_dropWhile_less [of ?t isspace] hd_dropWhile [of isspace s] by simp
      moreover have "length ?t \<le> length s" by (rule length_dropWhile_le)
      ultimately have "length ?r \<le> m" "length ?r \<le> n'"
        using Suc.prems Suc by simp_all
      then have "split_ws m ?r = split_ws n' ?r" by (rule Suc.IH)
      then show ?thesis using False Suc by (simp add: Let_def)
    qed
  qed
qed

lemma length_split_ws_min:
  "m \<le> n \<Longrightarrow> length (split_ws m s) = min (Suc m) (length (split_ws n s))"
proof (induction m arbitrary: n s)
  case 0
  then show ?case by (cases n) (simp_all add: Let_def)
next
  case (Suc m)
  then obtain n' where n: "n = Suc n'" "m \<le> n'" by (cases n) simp_all
  show ?case using Suc.IH [OF n(2)] n(1) by (simp add: Let_def)
qed

lemma length_split_ws_5: "length (split_ws 5 s) = min 6 (length (split_all s))"
proof -
  let ?n = "max 5 (length s)"
  have "split_ws ?n s = split_all s"
    unfolding split_all_def by (rule split_ws_enough) simp_all
  moreover have "length (split_ws 5 s) = min (Suc 5) (length (split_ws ?n s))"
    by (rule length_split_ws_min) simp
  ultimately show ?thesis by simp
qed

lemma split_all_lstrip: "split_all (lstrip s) = split_all s"
proof -
  have "split_all (lstrip s) = split_ws (length s) (lstrip s)"
    unfolding split_all_def lstrip_def
    by (rule split_ws_enough) (simp_all add: length_dropWhile_le)
  then show ?thesis by (simp add: split_all_def lstrip_def split_ws_strip)
qed


lemma agg_line_format:
  assumes "result_line line"
  shows "(agg_line env alg ialg msrs line
            = Inl (AssertionError ''Invalid format of the resource consumption file''))
         = (length (split_all line) < 6)"
proof -
  have n: "length (split_ws 5 (lstrip line)) = min 6 (length (split_all line))"
    by (simp add: length_split_ws_5 split_all_lstrip)
  have vals: "agg_vals alg ialg net vs msrs
      \<noteq> Inl (AssertionError ''Invalid format of the resource consumption file'')" for net vs
    by (induction alg ialg net vs msrs rule: agg_vals.induct)
      (auto simp: agg_add_def Let_def split: sum.splits)
  show ?thesis
    using assms n vals
    by (auto simp: agg_line_def result_line_def Let_def split: option.splits)
qed

lemma agg_lines_bad_line:
  assumes "line \<in> set lns" "result_line line" "length (split_all line) < 6"
  shows "\<exists>e. agg_lines env alg ialg msrs lns = Inl e"
  using assms(1)
proof (induction lns arbitrary: msrs)
  case Nil
  then show ?case by simp
next
  case (Cons l lns)
  show ?case
  proof (cases "agg_line env alg ialg msrs l")
    case (Inl e)
    then show ?thesis by simp
  next
    case (Inr m')
    with agg_line_format [OF assms(2), of env alg ialg msrs] assms(3)
    have "l \<noteq> line" by auto
    with Cons Inr show ?thesis by auto
  qed
qed

lemma agg_algs_bad_line:
  assumes "alg \<in> set algs" "fs (algesfile env alg) = Some c" "line \<in> set (pylines c)"
    "result_line line" "length (split_all line) < 6"
  shows "\<exists>e. fst (agg_algs env fs algs st err) = Some e"
  using assms(1)
proof (induction algs arbitrary: st err)
  case Nil
  then show ?case by simp
next
  case (Cons a algs)
  show ?case
  proof (cases "a = alg")
    case True
    obtain e where "agg_lines env alg (agg_ialg st) (agg_measures st) (pylines c) = Inl e"
      using agg_lines_bad_line [OF assms(3-5)] by blast
    with True assms(2) show ?thesis by simp
  next
    case False
    with Cons have "\<And>st err. \<exists>e. fst (agg_algs env fs algs st err) = Some e" by simp
    then show ?thesis by (auto split: option.splits sum.splits)
  qed
qed

lemma aggexec_raises_files:
  "fst (agg_algs env (files w) algs \<lparr>agg_measures = [[], [], []], agg_malgs = [], agg_ialg = 0\<rparr> []) = Some e
   \<Longrightarrow> fst (aggexec env algs w) = Some e \<and> files (snd (aggexec env algs w)) = files w"
  by (auto simp: aggexec_def split: prod.splits option.splits)


section \<open>Malformed log lines\<close>

text \<open>
  C4 (amended). A log line that is neither blank nor a comment fails the field-count
  assertion of aggexec exactly when it has fewer than six whitespace-separated fields. When
  the log of a listed algorithm holds such a line, aggexec ends with an exception and
  changes no file. A line with more than six fields passes the assertion: the split stops
  after five separators and the sixth field takes the rest of the line.
\<close>

theorem short_line_fatal:
  assumes "result_line line"
  shows "((agg_line env alg ialg msrs line
             = Inl (AssertionError ''Invalid format of the resource consumption file''))
          = (length (split_all line) < 6))
       \<and> (length (split_all line) < 6 \<and> alg \<in> set algs
            \<and> files w (algesfile env alg) = Some c \<and> line \<in> set (pylines c)
          \<longrightarrow> (\<exists>e. fst (aggexec env algs w) = Some e)
              \<and> files (snd (aggexec env algs w)) = files w)"
proof (rule conjI)
  show "(agg_line env alg ialg msrs line
           = Inl (AssertionError ''Invalid format of the resource consumption file''))
        = (length (split_all line) < 6)"
    by (rule agg_line_format [OF assms])
next
  show "length (split_all line) < 6 \<and> alg \<in> set algs
      \<and> files w (algesfile env alg) = Some c \<and> line \<in> set (pylines c)
    \<longrightarrow> (\<exists>e. fst (aggexec env algs w) = Some e)
        \<and> files (snd (aggexec env algs w)) = files w"
  proof (rule impI)
    assume h: "length (split_all line) < 6 \<and> alg \<in> set algs
      \<and> files w (algesfile env alg) = Some c \<and> line \<in> set (pylines c)"
    then obtain e where
      "fst (agg_algs env (files w) algs
         \<lparr>agg_measures = [[], [], []], agg_malgs = [], agg_ialg = 0\<rparr> []) = Some e"
      using agg_algs_bad_line [of alg algs "files w" env c line] assms by blast
    from aggexec_raises_files [OF this]
    show "(\<exists>e. fst (aggexec env algs w) = Some e)
      \<and> files (snd (aggexec env algs w)) = files w"
      by blast
  qed
qed

theorem short_line_fatal_witness:
  "result_line ''0.5 0.4 0.3 0.1 2.0\<newline>''
   \<and> length (split_all ''0.5 0.4 0.3 0.1 2.0\<newline>'') = 5
   \<and> agg_line example_env ''algX'' 0 [[], [], []] ''0.5 0.4 0.3 0.1 2.0\<newline>''
       = Inl (AssertionError ''Invalid format of the resource consumption file'')
   \<and> fst (aggexec example_env [''algX'']
        (example_os [(''results/algX/algX.rcp'', ''# header\<newline>0.5 0.4 0.3 0.1 2.0\<newline>'')]))
       \<noteq> None"
proof -
  let ?l = "''0.5 0.4 0.3 0.1 2.0\<newline>''"
  let ?w = "example_os [(''results/algX/algX.rcp'', ''# header\<newline>0.5 0.4 0.3 0.1 2.0\<newline>'')]"
  have r: "result_line ?l" by code_simp
  have n: "length (split_all ?l) = 5" by code_simp
  have f: "files ?w (algesfile example_env ''algX'')
      = Some ''# header\<newline>0.5 0.4 0.3 0.1 2.0\<newline>''"
    by (simp add: example_os_def algesfile_def example_env_def)
  have m: "?l \<in> set (pylines ''# header\<newline>0.5 0.4 0.3 0.1 2.0\<newline>'')"
    by (simp add: pylines_def)
  show ?thesis
    using short_line_fatal [OF r, of example_env "''algX''" 0 "[[], [], []]" "[''algX'']" ?w
        "''# header\<newline>0.5 0.4 0.3 0.1 2.0\<newline>''"] r n f m
    by auto
qed

theorem long_line_accepted:
  "length (split_all ''0.5 0.4 0.3 0.1 2.0 graph1 extra\<newline>'') = 7
   \<and> (case agg_line example_env ''algX'' 0 [[], [], []] ''0.5 0.4 0.3 0.1 2.0 graph1 extra\<newline>'' of
         Inl e \<Rightarrow> None
       | Inr ms \<Rightarrow> Some (map (map fst) ms))
      = Some [[''graph1 extra''], [''graph1 extra''], [''graph1 extra'']]"
  by code_simp

section \<open>The loop over the algorithms\<close>

lemma agg_algs_unopened:
  "\<forall>a \<in> set algs. fs (algesfile env a) = None \<Longrightarrow>
   agg_algs env fs algs st err = (None, st, err @ map warn_missing algs)"
  by (induction algs arbitrary: err) simp_all

lemma aggexec_unopened:
  assumes "\<forall>a \<in> set algs. files w (algesfile env a) = None"
  shows "aggexec env algs w
    = (None, w\<lparr>stderr := stderr w @ map warn_missing algs @ [warn_none]\<rparr>)"
  by (simp add: aggexec_def agg_algs_unopened [OF assms] eprint_def)











section \<open>Logs that cannot be opened\<close>



text \<open>
  C8 (amended). For the empty list, and for a list none of whose resource logs can be
  opened, aggexec returns normally and leaves every file as it was; stderr receives one
  warning per listed algorithm, in list order, followed by the warning that there is
  nothing to aggregate. The warning is a single one for the empty list only.
\<close>

theorem no_logs_no_reports:
  assumes "\<forall>a \<in> set algs. files w (algesfile env a) = None"
  shows "aggexec env algs w
      = (None, w\<lparr>stderr := stderr w @ map warn_missing algs @ [warn_none]\<rparr>)
    \<and> files (snd (aggexec env algs w)) = files w
    \<and> length (stderr (snd (aggexec env algs w))) = length (stderr w) + length algs + 1"
  by (simp add: aggexec_unopened [OF assms])

theorem no_logs_no_reports_witness:
  "files (example_os []) (algesfile example_env ''scp'') = None
   \<and> files (example_os []) (algesfile example_env ''ganxis'') = None
   \<and> aggexec example_env [''scp'', ''ganxis''] (example_os [])
      = (None, (example_os [])\<lparr>stderr := [warn_missing ''scp'', warn_missing ''ganxis'', warn_none]\<rparr>)
   \<and> aggexec example_env [] (example_os [])
      = (None, (example_os [])\<lparr>stderr := [warn_none]\<rparr>)"
proof -
  have h: "\<forall>a \<in> set [''scp'', ''ganxis'']. files (example_os []) (algesfile example_env a) = None"
    by (simp add: example_os_def)
  have h0: "\<forall>a \<in> set []. files (example_os []) (algesfile example_env a) = None"
    by simp
  show ?thesis
    using no_logs_no_reports [OF h] no_logs_no_reports [OF h0] h
    by (simp add: example_os_def)
qed

theorem unopened_list_two_warnings:
  "stderr (snd (aggexec example_env [''scp''] (example_os [])))
     = [warn_missing ''scp'', warn_none]
   \<and> length (stderr (snd (aggexec example_env [''scp''] (example_os [])))) = 2"
proof -
  have "\<forall>a \<in> set [''scp'']. files (example_os []) (algesfile example_env a) = None"
    by (simp add: example_os_def)
  from aggexec_unopened [OF this] show ?thesis
    by (simp add: example_os_def)
qed

section \<open>Alignment of the accumulators with the algorithms\<close>

lemma alignedI:
  assumes "\<And>net ns. (net, ns) \<in> set d \<Longrightarrow>
      ns \<noteq> [] \<and> length ns \<le> length names
      \<and> (\<forall>i < length ns. stat_name (ns ! i) = names ! i @ ''_'' @ net
            \<and> 0 < stat_count (ns ! i) \<and> P (names ! i))"
  shows "aligned P names d"
  unfolding aligned_def using assms by blast

lemma alignedD:
  assumes "aligned P names d" "(net, ns) \<in> set d"
  shows "ns \<noteq> []" "length ns \<le> length names"
    "\<And>i. i < length ns \<Longrightarrow> stat_name (ns ! i) = names ! i @ ''_'' @ net"
    "\<And>i. i < length ns \<Longrightarrow> 0 < stat_count (ns ! i)"
    "\<And>i. i < length ns \<Longrightarrow> P (names ! i)"
  using assms unfolding aligned_def by blast+

lemma aligned_append:
  assumes "aligned P names d"
  shows "aligned P (names @ [a]) d"
proof (rule alignedI)
  fix net ns
  assume m: "(net, ns) \<in> set d"
  note e = alignedD [OF assms m]
  have "(names @ [a]) ! i = names ! i" if "i < length ns" for i
    using that e(2) by (simp add: nth_append)
  then show "ns \<noteq> [] \<and> length ns \<le> length (names @ [a])
      \<and> (\<forall>i < length ns. stat_name (ns ! i) = (names @ [a]) ! i @ ''_'' @ net
            \<and> 0 < stat_count (ns ! i) \<and> P ((names @ [a]) ! i))"
    using e by simp
qed

lemma add_last_snoc: "add_last (ns @ [x]) v = ns @ [stat_add x v]"
  by (simp add: add_last_def)

lemma aligned_entry:
  assumes "aligned P names d" "map_of d net = Some ns"
  shows "ns \<noteq> [] \<and> length ns \<le> length names
    \<and> (\<forall>i < length ns. stat_name (ns ! i) = names ! i @ ''_'' @ net
          \<and> 0 < stat_count (ns ! i) \<and> P (names ! i))"
  using alignedD [OF assms(1) map_of_SomeD [OF assms(2)]] by blast

lemma set_update_insert: "set (AList.update k v d) \<subseteq> insert (k, v) (set d)"
  by (induction d) auto

lemma aligned_update:
  assumes "aligned P names d"
    and "ns' \<noteq> []" "length ns' \<le> length names"
    and "\<forall>i < length ns'. stat_name (ns' ! i) = names ! i @ ''_'' @ net
          \<and> 0 < stat_count (ns' ! i) \<and> P (names ! i)"
  shows "aligned P names (AList.update net ns' d)"
proof (rule alignedI)
  fix k ns
  assume "(k, ns) \<in> set (AList.update net ns' d)"
  then consider "k = net" "ns = ns'" | "(k, ns) \<in> set d"
    using set_update_insert [of net ns' d] by auto
  then show "ns \<noteq> [] \<and> length ns \<le> length names
      \<and> (\<forall>i < length ns. stat_name (ns ! i) = names ! i @ ''_'' @ k
            \<and> 0 < stat_count (ns ! i) \<and> P (names ! i))"
  proof cases
    case 1
    then show ?thesis using assms(2-4) by simp
  next
    case 2
    then show ?thesis using alignedD [OF assms(1) 2] by blast
  qed
qed

lemma agg_add_aligned:
  assumes al: "aligned P (malgs @ [alg]) d" and p: "P alg"
    and r: "agg_add alg (length malgs) net val d = Inr d'"
  shows "aligned P (malgs @ [alg]) d'"
proof (cases "map_of d net")
  case None
  with r have l: "malgs = []" and d': "d' = AList.update net [stat_add (ItemsStatistic_init (alg @ ''_'' @ net) val val) val] d"
    by (auto simp: agg_add_def Let_def add_last_def split: if_splits)
  show ?thesis
    unfolding d' using al p l
    by (intro aligned_update) (simp_all add: stat_add_def ItemsStatistic_init_def)
next
  case (Some ns)
  note e = aligned_entry [OF al Some]
  show ?thesis
  proof (cases "length ns = length malgs")
    case True
    with r Some have d': "d' = AList.update net
        (ns @ [stat_add (ItemsStatistic_init (alg @ ''_'' @ net) val val) val]) d"
      by (simp add: agg_add_def Let_def add_last_snoc)
    show ?thesis
      unfolding d' using al p e True
      by (intro aligned_update)
        (auto simp: nth_append stat_add_def ItemsStatistic_init_def less_Suc_eq)
  next
    case False
    with r Some e have len: "length ns = Suc (length malgs)"
      and d': "d' = AList.update net (add_last ns val) d"
      by (auto simp: agg_add_def Let_def split: if_splits)
    have nth: "add_last ns val ! i = (if i = length malgs then stat_add (ns ! i) val else ns ! i)"
      if "i < length ns" for i
      using that len e by (auto simp: add_last_def nth_append nth_butlast last_conv_nth)
    show ?thesis
      unfolding d' using al e len nth
      by (intro aligned_update) (auto simp: add_last_def stat_add_def)
  qed
qed

lemma agg_vals_aligned:
  assumes "\<forall>d \<in> set ms. aligned P (malgs @ [alg]) d" "P alg"
    and "agg_vals alg (length malgs) net vals ms = Inr ms'"
  shows "\<forall>d \<in> set ms'. aligned P (malgs @ [alg]) d"
  using assms
proof (induction alg "length malgs" net vals ms arbitrary: ms' rule: agg_vals.induct)
  case (1 alg net msrs)
  then show ?case by simp
next
  case (2 alg net val vals)
  then show ?case by simp
next
  case (3 alg net val vals d ds)
  then show ?case
    by (auto split: sum.splits dest: agg_add_aligned)
qed

lemma agg_line_aligned:
  assumes "\<forall>d \<in> set ms. aligned P (malgs @ [alg]) d" "result_line line \<longrightarrow> P alg"
    and "agg_line env alg (length malgs) ms line = Inr ms'"
  shows "\<forall>d \<in> set ms'. aligned P (malgs @ [alg]) d"
proof (cases "result_line line")
  case False
  with assms show ?thesis by (auto simp: agg_line_def result_line_def Let_def)
next
  case True
  with assms(2) have p: "P alg" by simp
  from assms(3) True obtain net vals where
    "agg_vals alg (length malgs) net vals ms = Inr ms'"
    by (auto simp: agg_line_def result_line_def Let_def split: if_splits option.splits)
  from agg_vals_aligned [OF assms(1) p this] show ?thesis .
qed

lemma agg_lines_aligned:
  assumes "\<forall>d \<in> set ms. aligned P (malgs @ [alg]) d"
    and "\<forall>l \<in> set lns. result_line l \<longrightarrow> P alg"
    and "agg_lines env alg (length malgs) ms lns = Inr ms'"
  shows "\<forall>d \<in> set ms'. aligned P (malgs @ [alg]) d"
  using assms
proof (induction lns arbitrary: ms)
  case Nil
  then show ?case by simp
next
  case (Cons l lns)
  from Cons.prems(3) obtain m1 where
    m1: "agg_line env alg (length malgs) ms l = Inr m1"
    and rest: "agg_lines env alg (length malgs) m1 lns = Inr ms'"
    by (auto split: sum.splits)
  have "\<forall>d \<in> set m1. aligned P (malgs @ [alg]) d"
    using agg_line_aligned [OF Cons.prems(1) _ m1] Cons.prems(2) by simp
  from Cons.IH [OF this _ rest] Cons.prems(2) show ?case by simp
qed

lemma agg_algs_aligned:
  assumes "\<forall>d \<in> set (agg_measures st). aligned (has_results env fs) (agg_malgs st) d"
    and "agg_ialg st = length (agg_malgs st)"
    and "agg_algs env fs algs st err = (None, st', out)"
  shows "(\<forall>d \<in> set (agg_measures st'). aligned (has_results env fs) (agg_malgs st') d)
    \<and> agg_malgs st' = agg_malgs st @ filter (\<lambda>a. fs (algesfile env a) \<noteq> None) algs"
  using assms
proof (induction algs arbitrary: st err)
  case Nil
  then show ?case by simp
next
  case (Cons a algs)
  show ?case
  proof (cases "fs (algesfile env a)")
    case None
    with Cons.prems(3) have "agg_algs env fs algs st (err @ [warn_missing a]) = (None, st', out)"
      by simp
    from Cons.IH [OF Cons.prems(1,2) this] None show ?thesis by auto
  next
    case (Some c)
    with Cons.prems(3) obtain ms where
      ms: "agg_lines env a (agg_ialg st) (agg_measures st) (pylines c) = Inr ms"
      and rest: "agg_algs env fs algs
        \<lparr>agg_measures = ms, agg_malgs = agg_malgs st @ [a], agg_ialg = agg_ialg st + 1\<rparr> err
        = (None, st', out)"
      by (auto split: sum.splits)
    have p: "\<forall>l \<in> set (pylines c). result_line l \<longrightarrow> has_results env fs a"
      using Some by (auto simp: has_results_def list_ex_iff)
    have "\<forall>d \<in> set (agg_measures st). aligned (has_results env fs) (agg_malgs st @ [a]) d"
      using Cons.prems(1) by (simp add: aligned_append)
    from agg_lines_aligned [OF this p] ms Cons.prems(2)
    have "\<forall>d \<in> set ms. aligned (has_results env fs) (agg_malgs st @ [a]) d" by simp
    with Cons.IH [OF _ _ rest] Cons.prems(2) Some show ?thesis by auto
  qed
qed









section \<open>The report files\<close>

lemma write_stats_Cons_cases:
  assumes "write_stats algnames tm i (stat # stats) (outres, outresx) = (x, outs)"
  obtains (stop) s where "x \<noteq> None" "outs = (outres @ s, outresx)"
  | (step) s sx where
      "write_stats algnames tm (i + 1) stats (outres @ s, outresx @ sx) = (x, outs)"
proof (cases "if stat_fixed stat then Inr stat else stat_fix stat")
  case (Inl e)
  with assms have "x \<noteq> None" "outs = (outres @ [], outresx)" by auto
  then show ?thesis by (rule stop)
next
  case (Inr st)
  note st = Inr
  show ?thesis
  proof (cases "if tm then Some (stat_sum st) else stat_avg st")
    case None
    with assms st have "x \<noteq> None" "outs = (outres @ [], outresx)" by auto
    then show ?thesis by (rule stop)
  next
    case (Some val)
    note val = Some
    show ?thesis
    proof (cases "length algnames \<le> i")
      case True
      with assms st val have "x \<noteq> None" "outs = (outres @ (TAB @ format_f 3 val), outresx)"
        by (auto simp: Let_def)
      then show ?thesis by (rule stop)
    next
      case False
      note i = False
      show ?thesis
      proof (cases "stat_avg st")
        case None
        with assms st val i have "x \<noteq> None" "outs = (outres @ (TAB @ format_f 3 val), outresx)"
          by (auto simp: Let_def)
        then show ?thesis by (rule stop)
      next
        case (Some avg)
        with assms st val i have
          "write_stats algnames tm (i + 1) stats
             (outres @ (TAB @ format_f 3 val),
              outresx @ (NL @ TAB @ algnames ! i @ ''>'' @ TAB @ ''total: ''
                @ format_f 3 val @ '', per_item: '' @ format_f 6 avg
                @ '' ('' @ format_f 6 (stat_min st) @ '' .. ''
                @ format_f 6 (stat_max st) @ '')'')) = (x, outs)"
          by (simp add: Let_def)
        then show ?thesis by (rule step)
      qed
    qed
  qed
qed

lemma write_stats_grows:
  "write_stats algnames tm i stats (outres, outresx) = (x, (outres', outresx'))
   \<Longrightarrow> \<exists>s sx. outres' = outres @ s \<and> outresx' = outresx @ sx"
proof (induction stats arbitrary: i outres outresx)
  case Nil
  then show ?case by simp
next
  case (Cons stat stats)
  from Cons.prems show ?case
  proof (cases rule: write_stats_Cons_cases)
    case (stop s)
    then show ?thesis by simp
  next
    case (step s sx)
    from Cons.IH [OF this] obtain t tx where
      "outres' = (outres @ s) @ t" "outresx' = (outresx @ sx) @ tx" by blast
    then have "outres' = outres @ (s @ t)" "outresx' = outresx @ (sx @ tx)" by simp_all
    then show ?thesis by blast
  qed
qed

lemma write_nets_grows:
  "write_nets algnames tm d (outres, outresx) = (x, (outres', outresx'))
   \<Longrightarrow> \<exists>s sx. outres' = outres @ s \<and> outresx' = outresx @ sx"
proof (induction d arbitrary: outres outresx)
  case Nil
  then show ?case by simp
next
  case (Cons p d)
  obtain net ns where p: "p = (net, ns)" by (cases p)
  obtain y o1 ox1 where r: "write_stats algnames tm 0 ns (outres @ net, outresx @ net) = (y, (o1, ox1))"
    by (metis prod.collapse)
  from write_stats_grows [OF r] obtain s sx where
    g: "o1 = outres @ (net @ s)" "ox1 = outresx @ (net @ sx)" by auto
  show ?case
  proof (cases y)
    case (Some e)
    with Cons.prems p r have "outres' = o1" "outresx' = ox1" by simp_all
    with g show ?thesis by blast
  next
    case None
    with Cons.prems p r have "write_nets algnames tm d (o1 @ NL, ox1 @ NL) = (x, (outres', outresx'))"
      by simp
    from Cons.IH [OF this] obtain t tx where
      "outres' = (o1 @ NL) @ t" "outresx' = (ox1 @ NL) @ tx" by blast
    with g have "outres' = outres @ (net @ s @ NL @ t)" "outresx' = outresx @ (net @ sx @ NL @ tx)"
      by simp_all
    then show ?thesis by blast
  qed
qed


lemma append_denied_fappend: "append_denied (fappend p t w) = append_denied w"
  by (simp add: fappend_def)

lemma files_fappend: "files (fappend p t w) = (files w)(p \<mapsto> fcontent w p @ t)"
  by (simp add: fappend_def)

lemma fcontent_fappend:
  "fcontent (fappend p t w) q = (if q = p then fcontent w p @ t else fcontent w q)"
  by (simp add: fappend_def fcontent_def)

lemma write_measure_open:
  assumes "\<not> append_denied w (resfile env m)" "\<not> append_denied w (resxfile env m)"
    and "resfile env m \<noteq> resxfile env m"
  shows "write_measure env ts algnames tm m d w
    = (case write_nets algnames tm d
         (timestamp_line ts @ ''# <network>'' @ concat (map ((@) TAB) algnames) @ NL,
          (if fcontent w (resxfile env m) = [] then resx_header else []) @ timestamp_line ts) of
       (exc, (outres, outresx)) \<Rightarrow>
         (exc, fappend (resfile env m) outres (fappend (resxfile env m) outresx
            (fappend (resxfile env m) [] (fappend (resfile env m) [] w)))))"
  using assms
  by (simp add: write_measure_def Let_def append_denied_fappend fcontent_fappend)

lemma write_measure_effect:
  assumes d1: "\<not> append_denied w (resfile env m)" and d2: "\<not> append_denied w (resxfile env m)"
    and ne: "resfile env m \<noteq> resxfile env m"
  shows "(\<exists>s sx.
      files (snd (write_measure env ts algnames tm m d w))
        = (files w)(resfile env m \<mapsto> fcontent w (resfile env m) @ timestamp_line ts @ s,
                    resxfile env m \<mapsto> fcontent w (resxfile env m)
                      @ (if fcontent w (resxfile env m) = [] then resx_header else [])
                      @ timestamp_line ts @ sx))
    \<and> append_denied (snd (write_measure env ts algnames tm m d w)) = append_denied w"
proof -
  let ?r = "resfile env m" and ?rx = "resxfile env m"
  let ?w2 = "fappend ?rx [] (fappend ?r [] w)"
  let ?hdr = "if fcontent w ?rx = [] then resx_header else []"
  let ?h2 = "''# <network>'' @ concat (map ((@) TAB) algnames) @ NL"
  obtain x o1 ox1 where
    wn: "write_nets algnames tm d (timestamp_line ts @ ?h2, ?hdr @ timestamp_line ts) = (x, (o1, ox1))"
    by (metis prod.collapse)
  from write_nets_grows [OF wn] obtain s sx where
    g: "o1 = (timestamp_line ts @ ?h2) @ s" "ox1 = (?hdr @ timestamp_line ts) @ sx" by blast
  have wm: "write_measure env ts algnames tm m d w = (x, fappend ?r o1 (fappend ?rx ox1 ?w2))"
    unfolding write_measure_open [OF assms] wn by simp
  have f: "files (fappend ?r o1 (fappend ?rx ox1 ?w2))
      = (files w)(?r \<mapsto> fcontent w ?r @ o1, ?rx \<mapsto> fcontent w ?rx @ ox1)"
    using ne by (auto simp: files_fappend fcontent_fappend fun_eq_iff)
  have "files (snd (write_measure env ts algnames tm m d w))
      = (files w)(?r \<mapsto> fcontent w ?r @ o1, ?rx \<mapsto> fcontent w ?rx @ ox1)"
    unfolding wm snd_conv by (rule f)
  then have "files (snd (write_measure env ts algnames tm m d w))
      = (files w)(?r \<mapsto> fcontent w ?r @ timestamp_line ts @ (?h2 @ s),
           ?rx \<mapsto> fcontent w ?rx @ ?hdr @ timestamp_line ts @ sx)"
    unfolding g by (simp only: append_assoc)
  then have "\<exists>s sx.
      files (snd (write_measure env ts algnames tm m d w))
        = (files w)(?r \<mapsto> fcontent w ?r @ timestamp_line ts @ s,
                    ?rx \<mapsto> fcontent w ?rx @ ?hdr @ timestamp_line ts @ sx)"
    by blast
  moreover have "append_denied (snd (write_measure env ts algnames tm m d w)) = append_denied w"
    unfolding wm by (simp add: append_denied_fappend)
  ultimately show ?thesis by blast
qed


lemma report_paths_mem:
  "(i, m) \<in> set l \<Longrightarrow> resfile env m \<in> set (report_paths env l) \<and> resxfile env m \<in> set (report_paths env l)"
  unfolding report_paths_def by force

lemma write_reports_effect:
  assumes "\<forall>p. \<not> append_denied w p"
    and "distinct (report_paths env l)"
    and "fst (write_reports env ts a msrs n l w) = None"
  shows "(\<forall>(i, m) \<in> set l.
      (\<exists>s. files (snd (write_reports env ts a msrs n l w)) (resfile env m)
          = Some (fcontent w (resfile env m) @ timestamp_line ts @ s))
      \<and> (\<exists>sx. files (snd (write_reports env ts a msrs n l w)) (resxfile env m)
          = Some (fcontent w (resxfile env m)
              @ (if fcontent w (resxfile env m) = [] then resx_header else [])
              @ timestamp_line ts @ sx)))
    \<and> (\<forall>p. p \<notin> set (report_paths env l) \<longrightarrow>
          files (snd (write_reports env ts a msrs n l w)) p = files w p)"
  using assms
proof (induction l arbitrary: w)
  case Nil
  then show ?case by (simp add: report_paths_def)
next
  case (Cons q l)
  obtain i m where q: "q = (i, m)" by (cases q)
  let ?r = "resfile env m" and ?rx = "resxfile env m"
  define wm where "wm = write_measure env ts a (i < n - 1) m (msrs ! i) w"
  let ?w1 = "snd wm"
  let ?w' = "snd (write_reports env ts a msrs n l ?w1)"
  have i: "i < length msrs"
    using Cons.prems(3) q by (cases "length msrs \<le> i") simp_all
  have dist: "?r \<noteq> ?rx" "?r \<notin> set (report_paths env l)" "?rx \<notin> set (report_paths env l)"
    "distinct (report_paths env l)"
    using Cons.prems(2) q by (simp_all add: report_paths_def)
  have nd: "\<not> append_denied w ?r" "\<not> append_denied w ?rx"
    using Cons.prems(1) by simp_all
  from write_measure_effect [OF nd dist(1), of ts a "i < n - 1" "msrs ! i"]
  obtain s sx where
    f1: "files ?w1 = (files w)(?r \<mapsto> fcontent w ?r @ timestamp_line ts @ s,
        ?rx \<mapsto> fcontent w ?rx @ (if fcontent w ?rx = [] then resx_header else [])
          @ timestamp_line ts @ sx)"
    and d1: "append_denied ?w1 = append_denied w"
    unfolding wm_def by blast
  have none: "fst wm = None"
    using Cons.prems(3) q i unfolding wm_def by (auto split: prod.splits option.splits)
  then have wr: "write_reports env ts a msrs n (q # l) w = write_reports env ts a msrs n l ?w1"
    using q i unfolding wm_def by (auto split: prod.splits option.splits)
  have rest_none: "fst (write_reports env ts a msrs n l ?w1) = None"
    using Cons.prems(3) wr by simp
  have "\<forall>p. \<not> append_denied ?w1 p" using Cons.prems(1) d1 by simp
  then have ih:
    "(\<forall>(j, m') \<in> set l.
        (\<exists>s. files ?w' (resfile env m') = Some (fcontent ?w1 (resfile env m') @ timestamp_line ts @ s))
        \<and> (\<exists>sx. files ?w' (resxfile env m')
            = Some (fcontent ?w1 (resxfile env m')
                @ (if fcontent ?w1 (resxfile env m') = [] then resx_header else [])
                @ timestamp_line ts @ sx)))
      \<and> (\<forall>p. p \<notin> set (report_paths env l) \<longrightarrow> files ?w' p = files ?w1 p)"
    using Cons.IH [of ?w1] dist(4) rest_none by blast
  have same: "fcontent ?w1 p = fcontent w p" if "p \<noteq> ?r" "p \<noteq> ?rx" for p
    using that by (simp add: fcontent_def f1)
  have head: "files ?w' ?r = Some (fcontent w ?r @ timestamp_line ts @ s)"
    "files ?w' ?rx = Some (fcontent w ?rx @ (if fcontent w ?rx = [] then resx_header else [])
          @ timestamp_line ts @ sx)"
    using ih dist f1 by simp_all
  have tail: "(\<exists>s. files ?w' (resfile env m') = Some (fcontent w (resfile env m') @ timestamp_line ts @ s))
      \<and> (\<exists>sx. files ?w' (resxfile env m')
          = Some (fcontent w (resxfile env m')
              @ (if fcontent w (resxfile env m') = [] then resx_header else [])
              @ timestamp_line ts @ sx))"
    if "(j, m') \<in> set l" for j m'
  proof -
    have "resfile env m' \<in> set (report_paths env l)" "resxfile env m' \<in> set (report_paths env l)"
      using report_paths_mem [OF that] by simp_all
    then have "resfile env m' \<noteq> ?r" "resfile env m' \<noteq> ?rx"
      "resxfile env m' \<noteq> ?r" "resxfile env m' \<noteq> ?rx"
      using dist by auto
    then have "fcontent ?w1 (resfile env m') = fcontent w (resfile env m')"
      "fcontent ?w1 (resxfile env m') = fcontent w (resxfile env m')"
      using same by simp_all
    then show ?thesis using ih that by fastforce
  qed
  have frame: "files ?w' p = files w p" if "p \<notin> set (report_paths env (q # l))" for p
  proof -
    have "p \<noteq> ?r" "p \<noteq> ?rx" "p \<notin> set (report_paths env l)"
      using that q by (simp_all add: report_paths_def)
    then show ?thesis using ih f1 by simp
  qed
  have each: "(\<exists>s. files ?w' (resfile env m') = Some (fcontent w (resfile env m') @ timestamp_line ts @ s))
      \<and> (\<exists>sx. files ?w' (resxfile env m')
          = Some (fcontent w (resxfile env m')
              @ (if fcontent w (resxfile env m') = [] then resx_header else [])
              @ timestamp_line ts @ sx))"
    if "(j, m') \<in> set (q # l)" for j m'
  proof (cases "(j, m') = q")
    case True
    then have "m' = m" using q by simp
    then show ?thesis using head by blast
  next
    case False
    then have "(j, m') \<in> set l" using that by simp
    then show ?thesis by (rule tail)
  qed
  show ?case
    unfolding wr using each frame by blast
qed


lemma distinct_report_paths:
  "EXTAGGRES env \<noteq> EXTAGGRESEXT env \<Longrightarrow> distinct (report_paths env (enumerate 0 mnames))"
  by (simp add: report_paths_def mnames_def resfile_def resxfile_def)

lemma fcontent_stderr: "fcontent (w\<lparr>stderr := e\<rparr>) p = fcontent w p"
  by (simp add: fcontent_def)

text \<open>
  C6 (amended). When aggexec returns normally after opening at least one log, with no
  report denied and two different report extensions, then for each measure both reports
  were opened in append mode: the compact file holds its previous content followed by the
  timestamp line and the new section, and the extended file holds its previous content,
  then the format header if and only if the file was empty or absent before, then the
  timestamp line and the new section. The timestamp line is written in every run to both
  files; what depends on the extended file having been empty is the format header.
\<close>

theorem reports_appended:
  assumes "fst (aggexec env algs w) = None"
    and "\<exists>a \<in> set algs. files w (algesfile env a) \<noteq> None"
    and "\<forall>p. \<not> append_denied w p" and "EXTAGGRES env \<noteq> EXTAGGRESEXT env"
    and "m \<in> set mnames"
  shows "(\<exists>s. files (snd (aggexec env algs w)) (resfile env m)
        = Some (fcontent w (resfile env m) @ timestamp_line (utcnow w) @ s))
    \<and> (\<exists>sx. files (snd (aggexec env algs w)) (resxfile env m)
        = Some (fcontent w (resxfile env m)
            @ (if fcontent w (resxfile env m) = [] then resx_header else [])
            @ timestamp_line (utcnow w) @ sx))"
proof -
  let ?st0 = "\<lparr>agg_measures = [[], [], []], agg_malgs = [], agg_ialg = 0\<rparr>"
  obtain x st out where r: "agg_algs env (files w) algs ?st0 [] = (x, st, out)"
    by (metis prod.collapse)
  have x: "x = None"
    using assms(1) r by (cases x) (simp_all add: aggexec_def)
  have "\<forall>d \<in> set (agg_measures ?st0). aligned (has_results env (files w)) (agg_malgs ?st0) d"
    by (simp add: aligned_def)
  from agg_algs_aligned [OF this _ r [unfolded x]]
  have "agg_malgs st = filter (\<lambda>a. files w (algesfile env a) \<noteq> None) algs" by simp
  then have ne: "agg_malgs st \<noteq> []"
    using assms(2) by (auto simp: filter_empty_conv)
  let ?w1 = "w\<lparr>stderr := stderr w @ out\<rparr>"
  let ?l = "enumerate 0 mnames"
  have ag: "aggexec env algs w
      = write_reports env (utcnow w) (agg_malgs st) (agg_measures st) (length mnames) ?l ?w1"
    using r x ne by (simp add: aggexec_def)
  have none: "fst (write_reports env (utcnow w) (agg_malgs st) (agg_measures st) (length mnames) ?l ?w1)
      = None"
    using assms(1) ag by simp
  have nd: "\<forall>p. \<not> append_denied ?w1 p" using assms(3) by simp
  have en: "?l = [(0, ''exectime''), (1, ''cputime''), (2, ''rssmem'')]"
    by (simp add: mnames_def)
  have "(0, m) \<in> set ?l \<or> (1, m) \<in> set ?l \<or> (2, m) \<in> set ?l"
    using assms(5) unfolding en mnames_def by simp
  then obtain i where i: "(i, m) \<in> set ?l" by blast
  from write_reports_effect [OF nd distinct_report_paths [OF assms(4)] none] i
  show ?thesis
    unfolding ag fcontent_stderr by blast
qed


theorem reports_appended_witness:
  "fst (aggexec example_env [''algX''] algX_os) = None
   \<and> (\<exists>a \<in> set [''algX'']. files algX_os (algesfile example_env a) \<noteq> None)
   \<and> (\<forall>p. \<not> append_denied algX_os p)
   \<and> EXTAGGRES example_env \<noteq> EXTAGGRESEXT example_env
   \<and> ''rssmem'' \<in> set mnames
   \<and> (\<exists>s. files (snd (aggexec example_env [''algX''] algX_os)) (resfile example_env ''rssmem'')
         = Some (timestamp_line (utcnow algX_os) @ s))
   \<and> (\<exists>sx. files (snd (aggexec example_env [''algX''] algX_os)) (resxfile example_env ''rssmem'')
         = Some (resx_header @ timestamp_line (utcnow algX_os) @ sx))"
proof -
  have h1: "fst (aggexec example_env [''algX''] algX_os) = None"
    by code_simp
  have h2: "\<exists>a \<in> set [''algX'']. files algX_os (algesfile example_env a) \<noteq> None"
    by (simp add: algX_os_def example_os_def algesfile_def example_env_def)
  have h3: "\<forall>p. \<not> append_denied algX_os p"
    by (simp add: algX_os_def example_os_def)
  have h4: "EXTAGGRES example_env \<noteq> EXTAGGRESEXT example_env"
    by (simp add: example_env_def)
  have h5: "''rssmem'' \<in> set mnames"
    by (simp add: mnames_def)
  have c: "fcontent algX_os (resfile example_env ''rssmem'') = []"
    "fcontent algX_os (resxfile example_env ''rssmem'') = []"
    by (simp_all add: fcontent_def algX_os_def example_os_def resfile_def resxfile_def
        example_env_def)
  show ?thesis
    using reports_appended [OF h1 h2 h3 h4 h5] h1 h2 h3 h4 h5 c by simp
qed

theorem timestamp_written_again:
  "files algX_os_again ''results/exectime.resx'' = Some (''# old'' @ NL)
   \<and> files (snd (aggexec example_env [''algX''] algX_os_again)) ''results/exectime.resx''
     = Some (''# old'' @ NL @ ''# --- 2015-07-01 10:00:00.000000 ---'' @ NL
         @ ''graph1'' @ NL @ TAB @ ''algX>'' @ TAB
         @ ''total: 1.200, per_item: 0.600000 (0.500000 .. 0.700000)'' @ NL
         @ ''graph2'' @ NL @ TAB @ ''algX>'' @ TAB
         @ ''total: 1.200, per_item: 1.200000 (1.200000 .. 1.200000)'' @ NL)"
  by code_simp

section \<open>The values in the reports\<close>

lemma accumulated_first: "accumulated nm [v] = stat_add (ItemsStatistic_init nm v v) v"
  by (simp add: accumulated_def)

lemma accumulated_snoc: "vs \<noteq> [] \<Longrightarrow> accumulated nm (vs @ [v]) = stat_add (accumulated nm vs) v"
  by (simp add: accumulated_def)

lemma foldl_stat_add:
  "stat_sum (foldl stat_add st vs) = foldl fadd (stat_sum st) vs
   \<and> stat_count (foldl stat_add st vs) = stat_count st + length vs
   \<and> stat_min (foldl stat_add st vs) = fold min vs (stat_min st)
   \<and> stat_max (foldl stat_add st vs) = fold max vs (stat_max st)
   \<and> stat_fixed (foldl stat_add st vs) = stat_fixed st
   \<and> stat_avg (foldl stat_add st vs) = stat_avg st"
  by (induction vs arbitrary: st) (simp_all add: stat_add_def min.commute max.commute)

lemma fold_min_dup: "fold min (v # vs) (v::rat) = Min (set (v # vs))"
  using Min.set_eq_fold [of v vs] by simp

lemma fold_max_dup: "fold max (v # vs) (v::rat) = Max (set (v # vs))"
  using Max.set_eq_fold [of v vs] by simp

lemma accumulated_fields:
  assumes "vs \<noteq> []"
  shows "stat_sum (accumulated nm vs) = fsum vs"
    "stat_count (accumulated nm vs) = length vs"
    "stat_min (accumulated nm vs) = Min (set vs)"
    "stat_max (accumulated nm vs) = Max (set vs)"
    "\<not> stat_fixed (accumulated nm vs)"
proof -
  obtain v ws where vs: "vs = v # ws" using assms by (cases vs) auto
  show "stat_sum (accumulated nm vs) = fsum vs"
    "stat_count (accumulated nm vs) = length vs"
    "\<not> stat_fixed (accumulated nm vs)"
    unfolding accumulated_def fsum_def
    by (simp_all add: foldl_stat_add ItemsStatistic_init_def)
  show "stat_min (accumulated nm vs) = Min (set vs)"
    unfolding accumulated_def vs
    using fold_min_dup [of v ws]
    by (simp only: foldl_stat_add list.sel ItemsStatistic_init_def ItemsStatistic.simps)
  show "stat_max (accumulated nm vs) = Max (set vs)"
    unfolding accumulated_def vs
    using fold_max_dup [of v ws]
    by (simp only: foldl_stat_add list.sel ItemsStatistic_init_def ItemsStatistic.simps)
qed

lemma write_stats_step:
  assumes "(if stat_fixed stat then Inr stat else stat_fix stat) = Inr st"
    and "(if tm then Some (stat_sum st) else stat_avg st) = Some val"
    and "i < length algnames" "stat_avg st = Some avg"
  shows "write_stats algnames tm i (stat # stats) (outres, outresx)
    = write_stats algnames tm (i + 1) stats
        (outres @ TAB @ format_f 3 val,
         outresx @ NL @ TAB @ algnames ! i @ ''>'' @ TAB @ ''total: ''
           @ format_f 3 val @ '', per_item: '' @ format_f 6 avg
           @ '' ('' @ format_f 6 (stat_min st) @ '' .. ''
           @ format_f 6 (stat_max st) @ '')'')"
  unfolding write_stats.simps assms(1) assms(2) sum.case option.case Let_def
  using assms(3,4) by simp

lemma write_stats_accumulated:
  assumes "\<forall>e \<in> set samples. snd e \<noteq> []"
    and "i + length samples \<le> length algnames"
  shows "write_stats algnames tm i (map (\<lambda>e. accumulated (fst e) (snd e)) samples) (outres, outresx)
    = (None,
       (outres @ concat (map (\<lambda>e. TAB @ format_f 3 (cell_value tm (snd e))) samples),
        outresx @ concat (map (\<lambda>(alg, e). ext_entry tm (alg, snd e))
                           (zip (drop i algnames) samples))))"
  using assms
proof (induction samples arbitrary: i outres outresx)
  case Nil
  then show ?case by simp
next
  case (Cons e samples)
  let ?st = "accumulated (fst e) (snd e)"
  let ?st' = "?st\<lparr>stat_fixed := True, stat_avg := Some (favg (snd e))\<rparr>"
  let ?stats = "map (\<lambda>e. accumulated (fst e) (snd e)) samples"
  have ne: "snd e \<noteq> []" using Cons.prems(1) by simp
  note f = accumulated_fields [OF ne, of "fst e"]
  have i: "i < length algnames" using Cons.prems(2) by simp
  have cnt: "stat_count ?st \<noteq> 0" using f(2) ne by simp
  have fx: "(if stat_fixed ?st then Inr ?st else stat_fix ?st) = Inr ?st'"
    using f cnt by (simp add: stat_fix_def favg_def)
  have val: "(if tm then Some (stat_sum ?st') else stat_avg ?st') = Some (cell_value tm (snd e))"
    using f by (simp add: cell_value_def)
  have avg: "stat_avg ?st' = Some (favg (snd e))" by simp
  have mm: "stat_min ?st' = Min (set (snd e))" "stat_max ?st' = Max (set (snd e))"
    using f by simp_all
  have dr: "drop i algnames = algnames ! i # drop (i + 1) algnames"
    using i by (simp add: Cons_nth_drop_Suc)
  have "write_stats algnames tm i (map (\<lambda>e. accumulated (fst e) (snd e)) (e # samples))
      (outres, outresx)
    = write_stats algnames tm (i + 1) ?stats
        (outres @ TAB @ format_f 3 (cell_value tm (snd e)), outresx @ ext_entry tm (algnames ! i, snd e))"
    unfolding list.map ext_entry_def fst_conv snd_conv mm [symmetric]
    by (rule write_stats_step [OF fx val i avg])
  also have "\<dots> = (None,
       ((outres @ TAB @ format_f 3 (cell_value tm (snd e)))
          @ concat (map (\<lambda>e. TAB @ format_f 3 (cell_value tm (snd e))) samples),
        (outresx @ ext_entry tm (algnames ! i, snd e))
          @ concat (map (\<lambda>(alg, e). ext_entry tm (alg, snd e))
                           (zip (drop (i + 1) algnames) samples))))"
    using Cons.prems by (intro Cons.IH) simp_all
  also have "\<dots> = (None,
       (outres @ concat (map (\<lambda>e. TAB @ format_f 3 (cell_value tm (snd e))) (e # samples)),
        outresx @ concat (map (\<lambda>(alg, e). ext_entry tm (alg, snd e))
                           (zip (drop i algnames) (e # samples)))))"
    unfolding dr by simp
  finally show ?case .
qed

text \<open>
  C5 (amended). For the accumulators of one network, each holding the samples of one
  algorithm, the row of the compact report has per algorithm the accumulated sum for a time
  measure (exectime, cputime) and the accumulated average for the memory measure (rssmem,
  the last one), written with three decimals. The extended report has per algorithm the
  same value as total with three decimals, and the average, the minimum and the maximum
  with six decimals: two exectime samples 0.5 and 0.7 give
  \<open>total: 1.200, per_item: 0.600000 (0.500000 .. 0.700000)\<close>.
\<close>

theorem report_cells:
  assumes "\<forall>e \<in> set samples. snd e \<noteq> []" and "length samples \<le> length algnames"
  shows "write_stats algnames timemsr 0 (map (\<lambda>e. accumulated (fst e) (snd e)) samples)
        (outres, outresx)
      = (None,
         (outres @ concat (map (\<lambda>e. TAB @ format_f 3 (cell_value timemsr (snd e))) samples),
          outresx @ concat (map (\<lambda>(alg, e). ext_entry timemsr (alg, snd e))
                             (zip algnames samples))))
    \<and> map (\<lambda>(imsr, m). (m, imsr < length mnames - 1)) (enumerate 0 mnames)
        = [(''exectime'', True), (''cputime'', True), (''rssmem'', False)]"
proof
  show "write_stats algnames timemsr 0 (map (\<lambda>e. accumulated (fst e) (snd e)) samples)
        (outres, outresx)
      = (None,
         (outres @ concat (map (\<lambda>e. TAB @ format_f 3 (cell_value timemsr (snd e))) samples),
          outresx @ concat (map (\<lambda>(alg, e). ext_entry timemsr (alg, snd e))
                             (zip algnames samples))))"
    using write_stats_accumulated [OF assms(1), of 0 algnames timemsr outres outresx] assms(2)
    by simp
  show "map (\<lambda>(imsr, m). (m, imsr < length mnames - 1)) (enumerate 0 mnames)
        = [(''exectime'', True), (''cputime'', True), (''rssmem'', False)]"
    by (simp add: mnames_def)
qed

lemma report_cells_example:
  "concat (map (\<lambda>e. TAB @ format_f 3 (cell_value True (snd e)))
       [(''algX_graph1'', [1 / 2, 3152519739159347 / 4503599627370496])]) = TAB @ ''1.200''"
  "concat (map (\<lambda>(alg, e). ext_entry True (alg, snd e))
       (zip [''algX''] [(''algX_graph1'', [1 / 2, 3152519739159347 / 4503599627370496])]))
     = NL @ TAB @ ''algX>'' @ TAB @ ''total: 1.200, per_item: 0.600000 (0.500000 .. 0.700000)''"
  "dec_float ''0.5'' = Some (1 / 2)"
  "dec_float ''0.7'' = Some (3152519739159347 / 4503599627370496)"
  by code_simp+

theorem report_cells_witness:
  "snd (''algX_graph1'', [1 / 2, 3152519739159347 / 4503599627370496 :: rat]) \<noteq> []
   \<and> length [(''algX_graph1'', [1 / 2, 3152519739159347 / 4503599627370496 :: rat])]
        \<le> length [''algX'']
   \<and> dec_float ''0.5'' = Some (1 / 2)
   \<and> dec_float ''0.7'' = Some (3152519739159347 / 4503599627370496)
   \<and> write_stats [''algX''] True 0
        [accumulated ''algX_graph1'' [1 / 2, 3152519739159347 / 4503599627370496]]
        (''graph1'', ''graph1'')
      = (None,
         (''graph1'' @ TAB @ ''1.200'',
          ''graph1'' @ NL @ TAB @ ''algX>'' @ TAB
            @ ''total: 1.200, per_item: 0.600000 (0.500000 .. 0.700000)''))"
proof -
  let ?samples = "[(''algX_graph1'', [1 / 2, 3152519739159347 / 4503599627370496 :: rat])]"
  have h1: "\<forall>e \<in> set ?samples. snd e \<noteq> []" by simp
  have h2: "length ?samples \<le> length [''algX'']" by simp
  show ?thesis
    using report_cells [OF h1 h2, of True "''graph1''" "''graph1''"]
    unfolding report_cells_example by simp
qed

text \<open>
  The extended report of the execution time for the log with the samples 0.5 and 0.7 on
  graph1: the entry of graph1 reads \<open>per_item: 0.600000 (0.500000 .. 0.700000)\<close>, with six
  decimals and not three.
\<close>

theorem extended_report_six_decimals:
  "files (snd (aggexec example_env [''algX''] algX_os)) ''results/exectime.resx''
     = Some (resx_header @ ''# --- 2015-07-01 10:00:00.000000 ---'' @ NL
         @ ''graph1'' @ NL @ TAB @ ''algX>'' @ TAB
         @ ''total: 1.200, per_item: 0.600000 (0.500000 .. 0.700000)'' @ NL
         @ ''graph2'' @ NL @ TAB @ ''algX>'' @ TAB
         @ ''total: 1.200, per_item: 1.200000 (1.200000 .. 1.200000)'' @ NL)"
  by code_simp

end
